theory Spec2Isabelle
  imports Main "HOL-Library.AList"
begin

section \<open>Go values used by the runner\<close>

text \<open>
  A Go slice is either \<^verbatim>\<open>nil\<close> or a (possibly empty) sequence; both have
  length 0 when they hold nothing, and only \<^verbatim>\<open>s == nil\<close> tells them apart.
  \<open>None\<close> is the nil slice, \<open>Some xs\<close> a non-nil slice with the elements \<open>xs\<close>.
\<close>

type_synonym 'a slice = "'a list option"

definition len :: "'a slice \<Rightarrow> nat" where
  "len s = (case s of None \<Rightarrow> 0 | Some xs \<Rightarrow> length xs)"

definition elems :: "'a slice \<Rightarrow> 'a list" where
  "elems s = (case s of None \<Rightarrow> [] | Some xs \<Rightarrow> xs)"


text \<open>A Go \<^verbatim>\<open>error\<close> is its message; the nil error is \<open>None\<close>.\<close>

type_synonym error = string



section \<open>Issues, engines and processors\<close>

text \<open>
  \<^verbatim>\<open>result.Issue\<close>: the runner reads and writes only \<^verbatim>\<open>FromLinter\<close>; the
  field \<open>Detail\<close> stands for everything else an issue carries (text, position, ...),
  which the runner never touches.
\<close>

record issue =
  FromLinter :: string
  Detail :: string

text \<open>
  What a call of \<^verbatim>\<open>lc.Linter.Run\<close> can do: return a pair (issues, error), or panic.
  The value of a panic, as \<^verbatim>\<open>recover()\<close> and the type assertion of line 104 see it:
  \<^item> \<open>NilPanic\<close>: \<^verbatim>\<open>panic(nil)\<close>, for which \<^verbatim>\<open>recover()\<close> returns nil;
  \<^item> \<open>NilPanicError\<close>: a nil pointer of type \<^verbatim>\<open>*errorutil.PanicError\<close>, a non-nil
    interface value on which the type assertion succeeds;
  \<^item> \<open>PanicError\<close>: a non-nil \<^verbatim>\<open>*errorutil.PanicError\<close>, with its message and the
    stack it recorded;
  \<^item> \<open>OtherPanic\<close>: any other non-nil value, kept as its \<^verbatim>\<open>%s\<close> rendering.
\<close>

datatype panic_data = NilPanic | NilPanicError | PanicError string string | OtherPanic string

datatype run_outcome = Returned "issue slice" "error option" | Panicked panic_data

text \<open>
  How a function of the runner is left: by returning its results, or by a panic that
  nothing in it recovered (kept as the rendering of the panic value).
\<close>

datatype 'a completion = Returns 'a | Panics string

text \<open>
  The observable effects of a run: log lines (by logger, level and message), the stages
  a stopwatch tracked, and the calls made to engines and processors. The argument of
  \<open>PanicStackTrace\<close>, \<^verbatim>\<open>debug.Stack()\<close>, is runtime data and is left out.
\<close>

datatype logger = RunnerLog | LintCtxLog

datatype level = Warn | Info

datatype message =
    PanicDiagnosed string string
  | PanicStackTrace
  | CantRunLinter string error
  | CantProcess string error
  | IssuesBeforeAfter int int
  | ProcessorsStat "(string \<times> int \<times> int) list"

datatype stopwatch = SwLinters | SwProcessing

datatype event =
    Logged logger level message
  | TrackStage stopwatch string
  | PrintStages stopwatch
  | Print stopwatch
  | LinterRun string
  | ProcessCall string
  | FinishCall string

text \<open>
  Engines and processors are external code with effects of their own. Everything they
  can read or change (caches, files, their private state) is the world \<open>'w\<close>, which
  is threaded through every call. A call is assumed to come back (by returning or, for
  an engine, by panicking).
\<close>

record 'w st =
  world :: 'w
  trace :: "event list"

definition emit :: "event \<Rightarrow> 'w st \<Rightarrow> 'w st" where
  "emit e s = s\<lparr>trace := trace s @ [e]\<rparr>"

text \<open>
  \<^verbatim>\<open>linter.Config\<close>: \<open>lcName\<close> is \<^verbatim>\<open>lc.Name()\<close>, \<open>linterName\<close> is
  \<^verbatim>\<open>lc.Linter.Name()\<close>, \<open>linterRun\<close> is \<^verbatim>\<open>lc.Linter.Run\<close>. The
  descriptors handed to \<^verbatim>\<open>Run\<close> are non-nil pointers, and the two name methods
  only return a string.
\<close>

record 'w linter_config =
  lcName :: string
  linterName :: string
  linterRun :: "'w \<Rightarrow> run_outcome \<times> 'w"

text \<open>\<^verbatim>\<open>processors.Processor\<close>: \<^verbatim>\<open>Name()\<close>, \<^verbatim>\<open>Process(issues)\<close>, \<^verbatim>\<open>Finish()\<close>.\<close>

record 'w processor =
  Name :: string
  Process :: "'w \<Rightarrow> issue slice \<Rightarrow> (issue slice \<times> error option) \<times> 'w"
  Finish :: "'w \<Rightarrow> 'w"

text \<open>
  \<^verbatim>\<open>Runner\<close>: the stored chain. Its \<^verbatim>\<open>Log\<close> field is the logger \<open>RunnerLog\<close>
  of the events.
\<close>

record 'w Runner =
  Processors :: "'w processor list"

section \<open>runLinterSafe\<close>

text \<open>The loop of lines 122-126: an empty \<^verbatim>\<open>FromLinter\<close> is set to the engine's name.\<close>

definition stamp :: "string \<Rightarrow> issue \<Rightarrow> issue" where
  "stamp name i = (if FromLinter i = [] then i\<lparr>FromLinter := name\<rparr> else i)"

definition stampAll :: "string \<Rightarrow> issue slice \<Rightarrow> issue slice" where
  "stampAll name issues = map_option (map (stamp name)) issues"

text \<open>
  The results \<^verbatim>\<open>ret\<close> and \<^verbatim>\<open>err\<close> are named, and a panic in \<^verbatim>\<open>Run\<close>
  happens before they are assigned: they are still nil when the deferred function
  runs. The deferred function calls \<^verbatim>\<open>recover()\<close>, which stops the panic, and then:
  \<^item> after \<^verbatim>\<open>panic(nil)\<close> the test \<^verbatim>\<open>panicData != nil\<close> fails, nothing is logged
    and (nil, nil) is returned;
  \<^item> for a \<^verbatim>\<open>*errorutil.PanicError\<close> it logs the value and \<^verbatim>\<open>pe.Stack()\<close>, and
    \<^verbatim>\<open>err\<close> stays nil; \<^verbatim>\<open>Stack\<close> reads a field of \<^verbatim>\<open>pe\<close>, so on a nil
    pointer the call panics before anything is logged, inside the deferred function,
    and that second panic leaves \<^verbatim>\<open>runLinterSafe\<close>;
  \<^item> for any other value it sets \<^verbatim>\<open>err\<close> and logs a stack trace.
\<close>

definition nilDereference :: string where
  "nilDereference = ''runtime error: invalid memory address or nil pointer dereference''"

definition runLinterSafe ::
  "'w linter_config \<Rightarrow> 'w st \<Rightarrow> (issue slice \<times> error option) completion \<times> 'w st" where
  "runLinterSafe lc s =
     (case linterRun lc (world s) of (outcome, w) \<Rightarrow>
        (let s1 = emit (LinterRun (lcName lc)) (s\<lparr>world := w\<rparr>) in
         case outcome of
           Returned issues err \<Rightarrow>
             (case err of
                Some e \<Rightarrow> (Returns (None, Some e), s1)
              | None \<Rightarrow> (Returns (stampAll (lcName lc) issues, None), s1))
         | Panicked NilPanic \<Rightarrow> (Returns (None, None), s1)
         | Panicked NilPanicError \<Rightarrow> (Panics nilDereference, s1)
         | Panicked (PanicError msg stack) \<Rightarrow>
             (Returns (None, None),
              emit (Logged LintCtxLog Warn (PanicDiagnosed msg stack)) s1)
         | Panicked (OtherPanic v) \<Rightarrow>
             (Returns (None, Some (''panic occurred: '' @ v)),
              emit (Logged RunnerLog Warn PanicStackTrace) s1)))"

section \<open>The processor chain\<close>

record processorStat =
  inCount :: int
  outCount :: int

text \<open>
  \<^verbatim>\<open>statPerProcessor\<close>, a Go map from processor name to its counters, as an
  association list; a missing key reads as the zero value. Go iterates a map in an
  unspecified order; the association list keeps the order of first insertion, and
  nothing below depends on it.
\<close>

type_synonym stats = "(string \<times> processorStat) list"

definition getStat :: "stats \<Rightarrow> string \<Rightarrow> processorStat" where
  "getStat stat name =
     (case map_of stat name of None \<Rightarrow> \<lparr>inCount = 0, outCount = 0\<rparr> | Some ps \<Rightarrow> ps)"

text \<open>One iteration of the loop of \<^verbatim>\<open>processIssues\<close> (lines 206-225).\<close>

definition processStep ::
  "'w processor \<Rightarrow> issue slice \<times> stats \<times> 'w st \<Rightarrow> issue slice \<times> stats \<times> 'w st" where
  "processStep p acc =
     (case acc of (issues, stat, s) \<Rightarrow>
        (case Process p (world s) issues of ((newIssues, err), w) \<Rightarrow>
           (let s1 = emit (TrackStage SwProcessing (Name p))
                       (emit (ProcessCall (Name p)) (s\<lparr>world := w\<rparr>));
                r = (case err of
                       Some e \<Rightarrow>
                         (issues, stat, emit (Logged RunnerLog Warn (CantProcess (Name p) e)) s1)
                     | None \<Rightarrow>
                         (let old = getStat stat (Name p);
                              new = old\<lparr>inCount := inCount old + int (len issues),
                                        outCount := outCount old + int (len newIssues)\<rparr>
                          in (newIssues, AList.update (Name p) new stat, s1)))
            in case r of (issues', stat', s2) \<Rightarrow>
                 ((if issues' = None then Some [] else issues'), stat', s2))))"

fun processLoop ::
  "'w processor list \<Rightarrow> issue slice \<times> stats \<times> 'w st \<Rightarrow> issue slice \<times> stats \<times> 'w st" where
  "processLoop [] acc = acc"
| "processLoop (p # ps) acc = processLoop ps (processStep p acc)"

definition processIssues ::
  "'w Runner \<Rightarrow> issue slice \<Rightarrow> stats \<Rightarrow> 'w st \<Rightarrow> issue slice \<times> stats \<times> 'w st" where
  "processIssues r issues statPerProcessor s =
     processLoop (Processors r) (issues, statPerProcessor, s)"

text \<open>The loop of lines 151-156: \<^verbatim>\<open>Finish\<close> on every processor of the chain.\<close>

definition finishStep :: "'w processor \<Rightarrow> 'w st \<Rightarrow> 'w st" where
  "finishStep p s =
     emit (TrackStage SwProcessing (Name p))
       (emit (FinishCall (Name p)) (s\<lparr>world := Finish p (world s)\<rparr>))"

fun finishLoop :: "'w processor list \<Rightarrow> 'w st \<Rightarrow> 'w st" where
  "finishLoop [] s = s"
| "finishLoop (p # ps) s = finishLoop ps (finishStep p s)"

definition printPerProcessorStat :: "stats \<Rightarrow> 'w st \<Rightarrow> 'w st" where
  "printPerProcessorStat stat s =
     (let parts = map (\<lambda>(name, ps). (name, outCount ps, inCount ps))
                    (filter (\<lambda>(name, ps). inCount ps \<noteq> 0) stat)
      in if length parts \<noteq> 0 then emit (Logged RunnerLog Info (ProcessorsStat parts)) s
         else s)"

text \<open>
  Lines 139-147 of \<^verbatim>\<open>processLintResults\<close>: the chain runs only on an input of
  non-zero length. The result is (outIssues, statPerProcessor, issuesBefore,
  issuesAfter) and the state.
\<close>

definition runChain ::
  "'w Runner \<Rightarrow> issue slice \<Rightarrow> 'w st \<Rightarrow> (issue slice \<times> stats \<times> int \<times> int) \<times> 'w st" where
  "runChain r inIssues s =
     (if len inIssues \<noteq> 0 then
        (case processIssues r inIssues [] s of (outIssues, stat, s1) \<Rightarrow>
           ((outIssues, stat, 0 + int (len inIssues), 0 + int (len outIssues)), s1))
      else ((None, [], 0, 0), s))"

definition processLintResults :: "'w Runner \<Rightarrow> issue slice \<Rightarrow> 'w st \<Rightarrow> issue slice \<times> 'w st" where
  "processLintResults r inIssues s =
     (case runChain r inIssues s of ((outIssues, stat, issuesBefore, issuesAfter), s1) \<Rightarrow>
        (let s2 = finishLoop (Processors r) s1;
             s3 = (if issuesBefore \<noteq> issuesAfter
                   then emit (Logged RunnerLog Info (IssuesBeforeAfter issuesBefore issuesAfter)) s2
                   else s2);
             s4 = printPerProcessorStat stat s3;
             s5 = emit (PrintStages SwProcessing) s4
         in (outIssues, s5)))"

section \<open>Run\<close>




section \<open>NewRunner\<close>












section \<open>Reading a trace\<close>

text \<open>The names of the processors whose \<^verbatim>\<open>Process\<close> (resp. \<^verbatim>\<open>Finish\<close>) was called, in call order.\<close>

fun processCalls :: "event list \<Rightarrow> string list" where
  "processCalls [] = []"
| "processCalls (ProcessCall n # es) = n # processCalls es"
| "processCalls (e # es) = processCalls es"

fun finishCalls :: "event list \<Rightarrow> string list" where
  "finishCalls [] = []"
| "finishCalls (FinishCall n # es) = n # finishCalls es"
| "finishCalls (e # es) = finishCalls es"

text \<open>The events of the loop of lines 151-156, one \<^verbatim>\<open>Finish\<close> per processor of the chain.\<close>

definition finishEvents :: "'w processor list \<Rightarrow> event list" where
  "finishEvents ps = concat (map (\<lambda>p. [FinishCall (Name p), TrackStage SwProcessing (Name p)]) ps)"







section \<open>Example inputs\<close>

text \<open>
  Small concrete engines, processors and states, over a world that counts the calls
  made, on which the theorems below are instantiated.
\<close>

definition exIssues :: "issue slice" where
  "exIssues = Some [\<lparr>FromLinter = [], Detail = ''p1''\<rparr>, \<lparr>FromLinter = ''meta'', Detail = ''p2''\<rparr>]"

definition exState :: "nat st" where
  "exState = \<lparr>world = 0, trace = []\<rparr>"

definition exDrop :: "nat processor" where
  "exDrop = \<lparr>Name = ''drop'', Process = (\<lambda>w i. ((map_option tl i, None), w + 1)),
             Finish = (\<lambda>w. w + 10)\<rparr>"

definition exFaulty :: "nat processor" where
  "exFaulty = \<lparr>Name = ''faulty'', Process = (\<lambda>w i. ((None, Some ''fault''), w + 1)),
               Finish = (\<lambda>w. w + 10)\<rparr>"

definition exNil :: "nat processor" where
  "exNil = \<lparr>Name = ''nil'', Process = (\<lambda>w i. ((None, None), w + 1)),
            Finish = (\<lambda>w. w + 10)\<rparr>"

definition exRunner :: "nat Runner" where
  "exRunner = \<lparr>Processors = [exDrop, exFaulty, exNil]\<rparr>"





definition exLintA :: "nat linter_config" where
  "exLintA = \<lparr>lcName = ''A'', linterName = ''A'',
              linterRun = (\<lambda>w. (Returned exIssues None, w + 100))\<rparr>"


definition exLintPanic :: "nat linter_config" where
  "exLintPanic = \<lparr>lcName = ''C'', linterName = ''C'',
                  linterRun = (\<lambda>w. (Panicked (OtherPanic ''boom''), w + 100))\<rparr>"

definition exLintDiagnosed :: "nat linter_config" where
  "exLintDiagnosed = \<lparr>lcName = ''D'', linterName = ''D'',
                      linterRun = (\<lambda>w. (Panicked (PanicError ''bad'' ''stack''), w + 100))\<rparr>"

definition exLintNameless :: "nat linter_config" where
  "exLintNameless = \<lparr>lcName = [], linterName = [],
                     linterRun = (\<lambda>w. (Returned exIssues None, w + 100))\<rparr>"


definition exLintNilPanic :: "nat linter_config" where
  "exLintNilPanic = \<lparr>lcName = ''N'', linterName = ''N'',
                     linterRun = (\<lambda>w. (Panicked NilPanic, w + 100))\<rparr>"

definition exLintNilPanicError :: "nat linter_config" where
  "exLintNilPanicError = \<lparr>lcName = ''P'', linterName = ''P'',
                          linterRun = (\<lambda>w. (Panicked NilPanicError, w + 100))\<rparr>"





section \<open>Auxiliary facts\<close>

lemma processCalls_append: "processCalls (xs @ ys) = processCalls xs @ processCalls ys"
  by (induction xs rule: processCalls.induct) simp_all

lemma finishCalls_append: "finishCalls (xs @ ys) = finishCalls xs @ finishCalls ys"
  by (induction xs rule: finishCalls.induct) simp_all

lemma trace_emit: "trace (emit e s) = trace s @ [e]"
  by (simp add: emit_def)

lemma world_emit: "world (emit e s) = world s"
  by (simp add: emit_def)

lemma processStep_nonnil: "fst (processStep p acc) \<noteq> None"
  by (simp add: processStep_def Let_def split: prod.splits option.splits)

lemma processStep_processCalls:
  "processCalls (trace (snd (snd (processStep p acc)))) =
     processCalls (trace (snd (snd acc))) @ [Name p]"
  by (simp add: processStep_def Let_def trace_emit processCalls_append
           split: prod.splits option.splits)

lemma processStep_finishCalls:
  "finishCalls (trace (snd (snd (processStep p acc)))) = finishCalls (trace (snd (snd acc)))"
  by (simp add: processStep_def Let_def trace_emit finishCalls_append
           split: prod.splits option.splits)

lemma processLoop_append:
  "processLoop (xs @ ys) acc = processLoop ys (processLoop xs acc)"
  by (induction xs arbitrary: acc) simp_all

lemma processLoop_processCalls:
  "processCalls (trace (snd (snd (processLoop ps acc)))) =
     processCalls (trace (snd (snd acc))) @ map Name ps"
  by (induction ps arbitrary: acc) (simp_all add: processStep_processCalls)

lemma processLoop_finishCalls:
  "finishCalls (trace (snd (snd (processLoop ps acc)))) = finishCalls (trace (snd (snd acc)))"
  by (induction ps arbitrary: acc) (simp_all add: processStep_finishCalls)

lemma processLoop_nonnil:
  "fst acc \<noteq> None \<Longrightarrow> fst (processLoop ps acc) \<noteq> None"
proof (induction ps arbitrary: acc)
  case Nil
  then show ?case by simp
next
  case (Cons p ps)
  have "fst (processStep p acc) \<noteq> None" by (rule processStep_nonnil)
  then have "fst (processLoop ps (processStep p acc)) \<noteq> None" by (rule Cons.IH)
  then show ?case by simp
qed

lemma processLoop_nonnil_chain:
  "ps \<noteq> [] \<Longrightarrow> fst (processLoop ps acc) \<noteq> None"
  by (cases ps) (simp_all add: processLoop_nonnil processStep_nonnil del: not_None_eq)

lemma len_nonzero_nonnil: "len s \<noteq> 0 \<Longrightarrow> s \<noteq> None"
  by (cases s) (simp_all add: len_def)

lemma finishLoop_trace:
  "trace (finishLoop ps s) =
     trace s @ concat (map (\<lambda>p. [FinishCall (Name p), TrackStage SwProcessing (Name p)]) ps)"
  by (induction ps arbitrary: s) (simp_all add: finishStep_def trace_emit)

lemma finishLoop_world:
  "world (finishLoop ps s) = foldl (\<lambda>w p. Finish p w) (world s) ps"
  by (induction ps arbitrary: s) (simp_all add: finishStep_def world_emit)

lemma finishCalls_finishEvents:
  "finishCalls (concat (map (\<lambda>p. [FinishCall (Name p), TrackStage SwProcessing (Name p)]) ps)) =
     map Name ps"
  by (induction ps) simp_all

lemma processCalls_finishEvents:
  "processCalls (concat (map (\<lambda>p. [FinishCall (Name p), TrackStage SwProcessing (Name p)]) ps)) = []"
  by (induction ps) simp_all

lemma runChain_finishCalls:
  "finishCalls (trace (snd (runChain r inIssues s))) = finishCalls (trace s)"
  by (simp add: runChain_def processIssues_def split: prod.splits)
     (metis processLoop_finishCalls snd_conv)

lemma processLintResults_trace:
  "\<exists>tl. trace (snd (processLintResults r inIssues s)) =
          trace (snd (runChain r inIssues s)) @ finishEvents (Processors r) @ tl \<and>
        processCalls tl = [] \<and> finishCalls tl = []"
proof -
  obtain out stat b a s1 where rc: "runChain r inIssues s = ((out, stat, b, a), s1)"
    by (metis prod.exhaust)
  define s2 where "s2 = finishLoop (Processors r) s1"
  define s3 where "s3 = (if b \<noteq> a then emit (Logged RunnerLog Info (IssuesBeforeAfter b a)) s2 else s2)"
  define s4 where "s4 = printPerProcessorStat stat s3"
  have r: "snd (processLintResults r inIssues s) = emit (PrintStages SwProcessing) s4"
    by (simp add: processLintResults_def rc Let_def s2_def s3_def s4_def)
  have t2: "trace s2 = trace s1 @ finishEvents (Processors r)"
    by (simp add: s2_def finishLoop_trace finishEvents_def)
  obtain l3 where t3: "trace s3 = trace s2 @ l3" "processCalls l3 = []" "finishCalls l3 = []"
    by (cases "b \<noteq> a") (simp_all add: s3_def trace_emit)
  obtain l4 where t4: "trace s4 = trace s3 @ l4" "processCalls l4 = []" "finishCalls l4 = []"
    by (cases "length (map (\<lambda>(name, ps). (name, outCount ps, inCount ps))
                    (filter (\<lambda>(name, ps). inCount ps \<noteq> 0) stat)) \<noteq> 0")
       (simp_all add: s4_def printPerProcessorStat_def Let_def trace_emit)
  have "trace (snd (processLintResults r inIssues s)) =
          trace (snd (runChain r inIssues s)) @ finishEvents (Processors r) @
            (l3 @ l4 @ [PrintStages SwProcessing])"
    by (simp add: r trace_emit t4 t3 t2 rc)
  moreover have "processCalls (l3 @ l4 @ [PrintStages SwProcessing]) = []"
    by (simp add: processCalls_append t3 t4)
  moreover have "finishCalls (l3 @ l4 @ [PrintStages SwProcessing]) = []"
    by (simp add: finishCalls_append t3 t4)
  ultimately show ?thesis by blast
qed

lemma processLintResults_world:
  "world (snd (processLintResults r inIssues s)) =
     foldl (\<lambda>w p. Finish p w) (world (snd (runChain r inIssues s))) (Processors r)"
  by (simp add: processLintResults_def Let_def printPerProcessorStat_def world_emit
        finishLoop_world split: prod.splits)
















lemma runLinterSafe_nil_PanicError_escapes:
  "runLinterSafe exLintNilPanicError exState =
     (Panics nilDereference, \<lparr>world = 100, trace = [LinterRun ''P'']\<rparr>)"
  by (simp add: runLinterSafe_def exLintNilPanicError_def exState_def emit_def)






section \<open>The claims\<close>

text \<open>
  Claim C1, as the code has it. \<^verbatim>\<open>processLintResults\<close> returns a non-nil list
  exactly for an input of non-zero length: the chain is guarded by
  \<^verbatim>\<open>len(inIssues) != 0\<close>, so an input of length zero (nil or empty) leaves
  \<^verbatim>\<open>outIssues\<close> at its declared value, nil, and that is returned. Inside the chain,
  no stage's nil output is passed on: after every iteration of the loop of
  \<^verbatim>\<open>processIssues\<close> the running sequence is non-nil.
\<close>

theorem processLintResults_nil_iff_empty:
  "(len inIssues \<noteq> 0 \<longrightarrow> fst (processLintResults r inIssues s) \<noteq> None) \<and>
   (len inIssues = 0 \<longrightarrow> fst (processLintResults r inIssues s) = None) \<and>
   fst (processStep p acc) \<noteq> None"
proof -
  have a: "fst (processLintResults r inIssues s) = fst (fst (runChain r inIssues s))"
    by (simp add: processLintResults_def Let_def split: prod.splits)
  have b: "len inIssues \<noteq> 0 \<Longrightarrow> fst (fst (runChain r inIssues s)) \<noteq> None"
  proof -
    assume n: "len inIssues \<noteq> 0"
    then have "inIssues \<noteq> None" by (rule len_nonzero_nonnil)
    then have "fst (processLoop (Processors r) (inIssues, [], s)) \<noteq> None"
      by (simp add: processLoop_nonnil del: not_None_eq)
    moreover from n have "fst (fst (runChain r inIssues s)) =
        fst (processLoop (Processors r) (inIssues, [], s))"
      by (simp add: runChain_def processIssues_def split: prod.splits)
    ultimately show ?thesis by simp
  qed
  have c: "len inIssues = 0 \<Longrightarrow> fst (fst (runChain r inIssues s)) = None"
    by (simp add: runChain_def)
  show ?thesis using a b c processStep_nonnil [of p acc] by simp
qed

text \<open>
  The claim as stated fails on the empty sequence: the result is nil, not an empty
  sequence.
\<close>

theorem processLintResults_empty_input_nil:
  "len (Some [] :: issue slice) = 0 \<and> fst (processLintResults exRunner (Some []) exState) = None"
  by (simp add: len_def processLintResults_def runChain_def Let_def)

theorem processLintResults_nil_iff_empty_witness:
  "len exIssues \<noteq> 0 \<and> fst (processLintResults exRunner exIssues exState) \<noteq> None \<and>
   len (None :: issue slice) = 0 \<and> fst (processLintResults exRunner None exState) = None"
  using processLintResults_nil_iff_empty [of exIssues exRunner exState exDrop "(None, [], exState)"]
    processLintResults_nil_iff_empty [of None exRunner exState exDrop "(None, [], exState)"]
  by (simp add: len_def exIssues_def)



text \<open>
  Claim C3. When the \<^verbatim>\<open>Process\<close> call of the processor at any position of the chain
  returns a non-nil error, the sequence handed on (to the next processor, or returned
  when it was the last) is the sequence that processor received, its counters are left
  as they were, a warning is logged, and the rest of the chain still runs: every
  processor of the chain is called, in order. \<^verbatim>\<open>processIssues\<close> is only called with
  an input of non-zero length, which is non-nil.
\<close>

theorem processIssues_error_keeps_input:
  assumes "issues \<noteq> None"
    and "processLoop pre (issues, stat, s) = (mid, stat1, s1)"
    and "Process p (world s1) mid = ((newIssues, Some e), w)"
  shows "processStep p (mid, stat1, s1) =
           (mid, stat1,
            emit (Logged RunnerLog Warn (CantProcess (Name p) e))
              (emit (TrackStage SwProcessing (Name p))
                 (emit (ProcessCall (Name p)) (s1\<lparr>world := w\<rparr>)))) \<and>
         processIssues \<lparr>Processors = pre @ p # post\<rparr> issues stat s =
           processLoop post (processStep p (mid, stat1, s1)) \<and>
         processCalls (trace (snd (snd (processIssues \<lparr>Processors = pre @ p # post\<rparr> issues stat s)))) =
           processCalls (trace s) @ map Name pre @ Name p # map Name post"
proof -
  from assms(1) have "fst (processLoop pre (issues, stat, s)) \<noteq> None"
    by (simp add: processLoop_nonnil del: not_None_eq)
  with assms(2) have mid: "mid \<noteq> None" by simp
  with assms(3) have step: "processStep p (mid, stat1, s1) =
           (mid, stat1,
            emit (Logged RunnerLog Warn (CantProcess (Name p) e))
              (emit (TrackStage SwProcessing (Name p))
                 (emit (ProcessCall (Name p)) (s1\<lparr>world := w\<rparr>))))"
    by (simp add: processStep_def Let_def)
  have run: "processIssues \<lparr>Processors = pre @ p # post\<rparr> issues stat s =
           processLoop post (processStep p (mid, stat1, s1))"
    using assms(2) by (simp add: processIssues_def processLoop_append)
  have calls: "processCalls (trace (snd (snd (processIssues \<lparr>Processors = pre @ p # post\<rparr> issues stat s)))) =
           processCalls (trace s) @ map Name pre @ Name p # map Name post"
    by (simp add: processIssues_def processLoop_processCalls)
  from step run calls show ?thesis by blast
qed

text \<open>The chain drop, faulty, nil on two issues: faulty receives one issue and hands it on.\<close>

theorem processIssues_error_keeps_input_witness:
  "exIssues \<noteq> None \<and>
   processLoop [exDrop] (exIssues, [], exState) =
     (Some [\<lparr>FromLinter = ''meta'', Detail = ''p2''\<rparr>],
      [(''drop'', \<lparr>inCount = 2, outCount = 1\<rparr>)],
      \<lparr>world = 1, trace = [ProcessCall ''drop'', TrackStage SwProcessing ''drop'']\<rparr>) \<and>
   Process exFaulty 1 (Some [\<lparr>FromLinter = ''meta'', Detail = ''p2''\<rparr>]) =
     ((None, Some ''fault''), 2) \<and>
   fst (processStep exFaulty (Some [\<lparr>FromLinter = ''meta'', Detail = ''p2''\<rparr>],
      [(''drop'', \<lparr>inCount = 2, outCount = 1\<rparr>)],
      \<lparr>world = 1, trace = [ProcessCall ''drop'', TrackStage SwProcessing ''drop'']\<rparr>)) =
     Some [\<lparr>FromLinter = ''meta'', Detail = ''p2''\<rparr>] \<and>
   processCalls (trace (snd (snd (processIssues \<lparr>Processors = [exDrop] @ exFaulty # [exNil]\<rparr>
       exIssues [] exState)))) = [''drop'', ''faulty'', ''nil'']"
proof -
  have a: "exIssues \<noteq> None" by (simp add: exIssues_def)
  have b: "processLoop [exDrop] (exIssues, [], exState) =
     (Some [\<lparr>FromLinter = ''meta'', Detail = ''p2''\<rparr>],
      [(''drop'', \<lparr>inCount = 2, outCount = 1\<rparr>)],
      \<lparr>world = 1, trace = [ProcessCall ''drop'', TrackStage SwProcessing ''drop'']\<rparr>)"
    by (simp add: processStep_def exDrop_def exIssues_def exState_def emit_def getStat_def
          len_def Let_def)
  have c: "Process exFaulty (world \<lparr>world = 1::nat, trace = [ProcessCall ''drop'', TrackStage SwProcessing ''drop'']\<rparr>) (Some [\<lparr>FromLinter = ''meta'', Detail = ''p2''\<rparr>]) =
     ((None, Some ''fault''), 2)"
    by (simp add: exFaulty_def)
  have c': "Process exFaulty 1 (Some [\<lparr>FromLinter = ''meta'', Detail = ''p2''\<rparr>]) =
     ((None, Some ''fault''), 2)"
    by (simp add: exFaulty_def)
  note t = processIssues_error_keeps_input [OF a b c, of "[exNil]"]
  from t [THEN conjunct1]
  have t1: "fst (processStep exFaulty (Some [\<lparr>FromLinter = ''meta'', Detail = ''p2''\<rparr>],
      [(''drop'', \<lparr>inCount = 2, outCount = 1\<rparr>)],
      \<lparr>world = 1, trace = [ProcessCall ''drop'', TrackStage SwProcessing ''drop'']\<rparr>)) =
     Some [\<lparr>FromLinter = ''meta'', Detail = ''p2''\<rparr>]"
    by (simp only: fst_conv)
  from t [THEN conjunct2, THEN conjunct2]
  have t3: "processCalls (trace (snd (snd (processIssues \<lparr>Processors = [exDrop] @ exFaulty # [exNil]\<rparr>
       exIssues [] exState)))) = [''drop'', ''faulty'', ''nil'']"
    by (simp add: exState_def exDrop_def exFaulty_def exNil_def)
  from a b c' t1 t3 show ?thesis by blast
qed

text \<open>
  Claim C4, as the code has it. For an engine that panics with anything but a nil
  \<^verbatim>\<open>*errorutil.PanicError\<close>, the panic does not leave \<^verbatim>\<open>runLinterSafe\<close>, which
  returns. A non-nil value that is not a \<^verbatim>\<open>*errorutil.PanicError\<close> gives nil issues
  and the error \<^verbatim>\<open>panic occurred: \<close> followed by the value, and a stack trace is
  logged on the runner's logger. A non-nil \<^verbatim>\<open>*errorutil.PanicError\<close> is only logged,
  on the lint context's logger, with the stack it recorded and no new stack trace; the
  returned issues and error are both nil. After \<^verbatim>\<open>panic(nil)\<close> the returned issues and
  error are both nil and nothing is logged.
\<close>

theorem runLinterSafe_recovers_panics:
  assumes "fst (linterRun lc (world s)) \<noteq> Panicked NilPanicError"
  shows "(\<exists>res. fst (runLinterSafe lc s) = Returns res) \<and>
         (\<forall>v w. linterRun lc (world s) = (Panicked (OtherPanic v), w) \<longrightarrow>
            runLinterSafe lc s =
              (Returns (None, Some (''panic occurred: '' @ v)),
               emit (Logged RunnerLog Warn PanicStackTrace)
                 (emit (LinterRun (lcName lc)) (s\<lparr>world := w\<rparr>)))) \<and>
         (\<forall>msg stack w. linterRun lc (world s) = (Panicked (PanicError msg stack), w) \<longrightarrow>
            runLinterSafe lc s =
              (Returns (None, None),
               emit (Logged LintCtxLog Warn (PanicDiagnosed msg stack))
                 (emit (LinterRun (lcName lc)) (s\<lparr>world := w\<rparr>)))) \<and>
         (\<forall>w. linterRun lc (world s) = (Panicked NilPanic, w) \<longrightarrow>
            runLinterSafe lc s =
              (Returns (None, None), emit (LinterRun (lcName lc)) (s\<lparr>world := w\<rparr>)))"
proof -
  obtain outcome w where run: "linterRun lc (world s) = (outcome, w)"
    by (cases "linterRun lc (world s)")
  with assms have ne: "outcome \<noteq> Panicked NilPanicError" by simp
  have returns: "\<exists>res. fst (runLinterSafe lc s) = Returns res"
  proof (cases outcome)
    case (Returned issues err)
    with run show ?thesis by (cases err) (simp_all add: runLinterSafe_def Let_def)
  next
    case (Panicked pd)
    with run ne show ?thesis by (cases pd) (simp_all add: runLinterSafe_def Let_def)
  qed
  have other: "\<forall>v w. linterRun lc (world s) = (Panicked (OtherPanic v), w) \<longrightarrow>
            runLinterSafe lc s =
              (Returns (None, Some (''panic occurred: '' @ v)),
               emit (Logged RunnerLog Warn PanicStackTrace)
                 (emit (LinterRun (lcName lc)) (s\<lparr>world := w\<rparr>)))"
    by (simp add: runLinterSafe_def Let_def)
  have diagnosed: "\<forall>msg stack w. linterRun lc (world s) = (Panicked (PanicError msg stack), w) \<longrightarrow>
            runLinterSafe lc s =
              (Returns (None, None),
               emit (Logged LintCtxLog Warn (PanicDiagnosed msg stack))
                 (emit (LinterRun (lcName lc)) (s\<lparr>world := w\<rparr>)))"
    by (simp add: runLinterSafe_def Let_def)
  have nil: "\<forall>w. linterRun lc (world s) = (Panicked NilPanic, w) \<longrightarrow>
            runLinterSafe lc s =
              (Returns (None, None), emit (LinterRun (lcName lc)) (s\<lparr>world := w\<rparr>))"
    by (simp add: runLinterSafe_def Let_def)
  from returns other diagnosed nil show ?thesis by blast
qed

text \<open>
  The claim as stated fails for \<^verbatim>\<open>panic(nil)\<close>, a fault that is not a
  \<^verbatim>\<open>*errorutil.PanicError\<close>: no error is returned and nothing is logged.
\<close>

theorem runLinterSafe_nil_panic_silent:
  "linterRun exLintNilPanic (world exState) = (Panicked NilPanic, 100) \<and>
   runLinterSafe exLintNilPanic exState =
     (Returns (None, None), \<lparr>world = 100, trace = [LinterRun ''N'']\<rparr>)"
  by (simp add: runLinterSafe_def exLintNilPanic_def exState_def emit_def)

text \<open>
  An engine that panics with a string, one that panics with a PanicError, and one that
  panics with nil.
\<close>

theorem runLinterSafe_recovers_panics_witness:
  "fst (linterRun exLintPanic (world exState)) \<noteq> Panicked NilPanicError \<and>
   linterRun exLintPanic (world exState) = (Panicked (OtherPanic ''boom''), 100) \<and>
   fst (runLinterSafe exLintPanic exState) = Returns (None, Some ''panic occurred: boom'') \<and>
   trace (snd (runLinterSafe exLintPanic exState)) =
     [LinterRun ''C'', Logged RunnerLog Warn PanicStackTrace] \<and>
   fst (linterRun exLintDiagnosed (world exState)) \<noteq> Panicked NilPanicError \<and>
   linterRun exLintDiagnosed (world exState) = (Panicked (PanicError ''bad'' ''stack''), 100) \<and>
   fst (runLinterSafe exLintDiagnosed exState) = Returns (None, None) \<and>
   trace (snd (runLinterSafe exLintDiagnosed exState)) =
     [LinterRun ''D'', Logged LintCtxLog Warn (PanicDiagnosed ''bad'' ''stack'')] \<and>
   fst (linterRun exLintNilPanic (world exState)) \<noteq> Panicked NilPanicError \<and>
   linterRun exLintNilPanic (world exState) = (Panicked NilPanic, 100) \<and>
   fst (runLinterSafe exLintNilPanic exState) = Returns (None, None) \<and>
   trace (snd (runLinterSafe exLintNilPanic exState)) = [LinterRun ''N'']"
proof -
  have a: "linterRun exLintPanic (world exState) = (Panicked (OtherPanic ''boom''), 100)"
    by (simp add: exLintPanic_def exState_def)
  have b: "linterRun exLintDiagnosed (world exState) = (Panicked (PanicError ''bad'' ''stack''), 100)"
    by (simp add: exLintDiagnosed_def exState_def)
  have c: "linterRun exLintNilPanic (world exState) = (Panicked NilPanic, 100)"
    by (simp add: exLintNilPanic_def exState_def)
  have a0: "fst (linterRun exLintPanic (world exState)) \<noteq> Panicked NilPanicError"
    by (simp add: a)
  have b0: "fst (linterRun exLintDiagnosed (world exState)) \<noteq> Panicked NilPanicError"
    by (simp add: b)
  have c0: "fst (linterRun exLintNilPanic (world exState)) \<noteq> Panicked NilPanicError"
    by (simp add: c)
  have n: "lcName exLintPanic = ''C''" "lcName exLintDiagnosed = ''D''"
    "lcName exLintNilPanic = ''N''"
    by (simp_all add: exLintPanic_def exLintDiagnosed_def exLintNilPanic_def)
  from a runLinterSafe_recovers_panics [OF a0]
  have p: "runLinterSafe exLintPanic exState =
        (Returns (None, Some (''panic occurred: '' @ ''boom'')),
         emit (Logged RunnerLog Warn PanicStackTrace)
           (emit (LinterRun (lcName exLintPanic)) (exState\<lparr>world := 100\<rparr>)))"
    by blast
  from b runLinterSafe_recovers_panics [OF b0]
  have d: "runLinterSafe exLintDiagnosed exState =
        (Returns (None, None),
         emit (Logged LintCtxLog Warn (PanicDiagnosed ''bad'' ''stack''))
           (emit (LinterRun (lcName exLintDiagnosed)) (exState\<lparr>world := 100\<rparr>)))"
    by blast
  from c runLinterSafe_recovers_panics [OF c0]
  have q: "runLinterSafe exLintNilPanic exState =
        (Returns (None, None), emit (LinterRun (lcName exLintNilPanic)) (exState\<lparr>world := 100\<rparr>))"
    by blast
  have p1: "fst (runLinterSafe exLintPanic exState) = Returns (None, Some ''panic occurred: boom'')"
    unfolding p by simp
  have p2: "trace (snd (runLinterSafe exLintPanic exState)) =
     [LinterRun ''C'', Logged RunnerLog Warn PanicStackTrace]"
    unfolding p by (simp add: n trace_emit exState_def)
  have d1: "fst (runLinterSafe exLintDiagnosed exState) = Returns (None, None)"
    unfolding d by simp
  have d2: "trace (snd (runLinterSafe exLintDiagnosed exState)) =
     [LinterRun ''D'', Logged LintCtxLog Warn (PanicDiagnosed ''bad'' ''stack'')]"
    unfolding d by (simp add: n trace_emit exState_def)
  have q1: "fst (runLinterSafe exLintNilPanic exState) = Returns (None, None)"
    unfolding q by simp
  have q2: "trace (snd (runLinterSafe exLintNilPanic exState)) = [LinterRun ''N'']"
    unfolding q by (simp add: n trace_emit exState_def)
  from a0 a p1 p2 b0 b d1 d2 c0 c q1 q2 show ?thesis by blast
qed

text \<open>
  Claim C5, as the code has it. When \<^verbatim>\<open>runLinterSafe\<close> returns a nil error, the
  returned issues are the engine's issues, in order, where an empty \<^verbatim>\<open>FromLinter\<close>
  has been set to \<^verbatim>\<open>lc.Name()\<close> and a non-empty one is unchanged (after a recovered
  panic there are no issues). Every returned issue has a non-empty
  \<^verbatim>\<open>FromLinter\<close> provided the engine's name is itself non-empty.
\<close>

theorem runLinterSafe_stamps_FromLinter:
  assumes "runLinterSafe lc s = (Returns (ret, None), s')"
  shows "(lcName lc \<noteq> [] \<longrightarrow> (\<forall>i \<in> set (elems ret). FromLinter i \<noteq> [])) \<and>
         (\<forall>out w. linterRun lc (world s) = (Returned out None, w) \<longrightarrow>
            ret = map_option (map (\<lambda>i. if FromLinter i = [] then i\<lparr>FromLinter := lcName lc\<rparr>
                                         else i)) out) \<and>
         (\<forall>pd w. linterRun lc (world s) = (Panicked pd, w) \<longrightarrow> ret = None)"
proof -
  have stamped: "lcName lc \<noteq> [] \<Longrightarrow> \<forall>i \<in> set (elems (stampAll (lcName lc) out)). FromLinter i \<noteq> []"
    for out
    by (cases out) (auto simp: stampAll_def elems_def stamp_def)
  have eq: "stampAll (lcName lc) out =
      map_option (map (\<lambda>i. if FromLinter i = [] then i\<lparr>FromLinter := lcName lc\<rparr> else i)) out"
    for out
    by (cases out) (simp_all add: stampAll_def stamp_def)
  obtain outcome w where run: "linterRun lc (world s) = (outcome, w)"
    by (cases "linterRun lc (world s)")
  show ?thesis
  proof (cases outcome)
    case (Returned out err)
    with assms run have "err = None" "ret = stampAll (lcName lc) out"
      by (auto simp: runLinterSafe_def Let_def split: option.splits)
    with run Returned stamped [of out] eq [of out] show ?thesis by auto
  next
    case (Panicked pd)
    with assms run have "ret = None"
      by (cases pd) (auto simp: runLinterSafe_def Let_def)
    with run Panicked show ?thesis by (auto simp: elems_def)
  qed
qed

text \<open>
  The claim as stated fails for an engine whose name is the empty string: the stamp
  writes the empty name, and the issue is returned with an empty \<^verbatim>\<open>FromLinter\<close>.
\<close>

theorem runLinterSafe_nameless_engine:
  "runLinterSafe exLintNameless exState =
     (Returns (Some [\<lparr>FromLinter = [], Detail = ''p1''\<rparr>, \<lparr>FromLinter = ''meta'', Detail = ''p2''\<rparr>], None),
      \<lparr>world = 100, trace = [LinterRun []]\<rparr>)"
  by (simp add: runLinterSafe_def exLintNameless_def exState_def exIssues_def stampAll_def
        stamp_def emit_def)

text \<open>Engine A returns one unstamped issue and one stamped by a meta engine.\<close>

theorem runLinterSafe_stamps_FromLinter_witness:
  "runLinterSafe exLintA exState =
     (Returns (Some [\<lparr>FromLinter = ''A'', Detail = ''p1''\<rparr>, \<lparr>FromLinter = ''meta'', Detail = ''p2''\<rparr>], None),
      \<lparr>world = 100, trace = [LinterRun ''A'']\<rparr>) \<and>
   lcName exLintA \<noteq> [] \<and>
   list_all (\<lambda>i. FromLinter i \<noteq> [])
     [\<lparr>FromLinter = ''A'', Detail = ''p1''\<rparr>, \<lparr>FromLinter = ''meta'', Detail = ''p2''\<rparr>] \<and>
   linterRun exLintA (world exState) = (Returned exIssues None, 100)"
proof -
  have a: "runLinterSafe exLintA exState =
     (Returns (Some [\<lparr>FromLinter = ''A'', Detail = ''p1''\<rparr>, \<lparr>FromLinter = ''meta'', Detail = ''p2''\<rparr>], None),
      \<lparr>world = 100, trace = [LinterRun ''A'']\<rparr>)"
    by (simp add: runLinterSafe_def exLintA_def exState_def exIssues_def stampAll_def
        stamp_def emit_def)
  have n: "lcName exLintA \<noteq> []" by (simp add: exLintA_def)
  have r: "linterRun exLintA (world exState) = (Returned exIssues None, 100)"
    by (simp add: exLintA_def exState_def)
  from runLinterSafe_stamps_FromLinter [OF a] n
  have "\<forall>i \<in> set (elems (Some [\<lparr>FromLinter = ''A'', Detail = ''p1''\<rparr>, \<lparr>FromLinter = ''meta'', Detail = ''p2''\<rparr>])). FromLinter i \<noteq> []"
    by blast
  then have "list_all (\<lambda>i. FromLinter i \<noteq> [])
     [\<lparr>FromLinter = ''A'', Detail = ''p1''\<rparr>, \<lparr>FromLinter = ''meta'', Detail = ''p2''\<rparr>]"
    by (simp add: elems_def)
  with a n r show ?thesis by blast
qed





text \<open>
  Claim C8. Whatever the chain did (skipped, run, with or without stage errors), no
  \<^verbatim>\<open>Finish\<close> is called while it runs; after it, \<^verbatim>\<open>processLintResults\<close> calls
  \<^verbatim>\<open>Finish\<close> exactly once on every processor, in the chain's order, and nothing that
  follows before the return calls \<^verbatim>\<open>Process\<close> or \<^verbatim>\<open>Finish\<close> again. The world
  returned is the world the chain left, with the \<^verbatim>\<open>Finish\<close> of each processor applied
  in order.
\<close>

theorem Finish_once_each_in_order:
  "finishCalls (trace (snd (runChain r inIssues s))) = finishCalls (trace s) \<and>
   (\<exists>tl. trace (snd (processLintResults r inIssues s)) =
           trace (snd (runChain r inIssues s)) @ finishEvents (Processors r) @ tl \<and>
         processCalls tl = [] \<and> finishCalls tl = []) \<and>
   finishCalls (finishEvents (Processors r)) = map Name (Processors r) \<and>
   processCalls (finishEvents (Processors r)) = [] \<and>
   finishCalls (trace (snd (processLintResults r inIssues s))) =
     finishCalls (trace s) @ map Name (Processors r) \<and>
   world (snd (processLintResults r inIssues s)) =
     foldl (\<lambda>w p. Finish p w) (world (snd (runChain r inIssues s))) (Processors r)"
proof -
  obtain tl where tl: "trace (snd (processLintResults r inIssues s)) =
           trace (snd (runChain r inIssues s)) @ finishEvents (Processors r) @ tl"
         "processCalls tl = []" "finishCalls tl = []"
    using processLintResults_trace by blast
  have fe: "finishCalls (finishEvents (Processors r)) = map Name (Processors r)"
    by (simp add: finishEvents_def finishCalls_finishEvents)
  have pe: "processCalls (finishEvents (Processors r)) = []"
    by (simp add: finishEvents_def processCalls_finishEvents)
  have "finishCalls (trace (snd (processLintResults r inIssues s))) =
     finishCalls (trace s) @ map Name (Processors r)"
    by (simp add: tl finishCalls_append fe runChain_finishCalls)
  with tl fe pe runChain_finishCalls [of r inIssues s] processLintResults_world [of r inIssues s]
  show ?thesis by blast
qed



text \<open>
  Claim C10. When the merged sequence given to \<^verbatim>\<open>processLintResults\<close> has length
  zero, the chain is skipped: no \<^verbatim>\<open>Process\<close> is called, the statistics stay empty
  and the counts stay 0, and the state is untouched; \<^verbatim>\<open>Finish\<close> is still called once
  on every processor, in order.
\<close>

theorem empty_input_skips_chain:
  assumes "len inIssues = 0"
  shows "runChain r inIssues s = ((None, [], 0, 0), s) \<and>
         processCalls (trace (snd (processLintResults r inIssues s))) = processCalls (trace s) \<and>
         finishCalls (trace (snd (processLintResults r inIssues s))) =
           finishCalls (trace s) @ map Name (Processors r) \<and>
         world (snd (processLintResults r inIssues s)) =
           foldl (\<lambda>w p. Finish p w) (world s) (Processors r)"
proof -
  from assms have rc: "runChain r inIssues s = ((None, [], 0, 0), s)"
    by (simp add: runChain_def)
  obtain tl where tl: "trace (snd (processLintResults r inIssues s)) =
           trace (snd (runChain r inIssues s)) @ finishEvents (Processors r) @ tl"
         "processCalls tl = []" "finishCalls tl = []"
    using processLintResults_trace by blast
  have p: "processCalls (trace (snd (processLintResults r inIssues s))) = processCalls (trace s)"
    by (simp add: tl rc processCalls_append finishEvents_def processCalls_finishEvents)
  have f: "finishCalls (trace (snd (processLintResults r inIssues s))) =
           finishCalls (trace s) @ map Name (Processors r)"
    by (simp add: tl rc finishCalls_append finishEvents_def finishCalls_finishEvents)
  have w: "world (snd (processLintResults r inIssues s)) =
           foldl (\<lambda>w p. Finish p w) (world s) (Processors r)"
    by (simp add: processLintResults_world rc)
  from rc p f w show ?thesis by blast
qed

text \<open>The chain drop, faulty, nil on the empty sequence.\<close>

theorem empty_input_skips_chain_witness:
  "len (Some [] :: issue slice) = 0 \<and>
   runChain exRunner (Some []) exState = ((None, [], 0, 0), exState) \<and>
   processCalls (trace (snd (processLintResults exRunner (Some []) exState))) = [] \<and>
   finishCalls (trace (snd (processLintResults exRunner (Some []) exState))) =
     [''drop'', ''faulty'', ''nil''] \<and>
   world (snd (processLintResults exRunner (Some []) exState)) = 30"
proof -
  have a: "len (Some [] :: issue slice) = 0" by (simp add: len_def)
  note t = empty_input_skips_chain [OF a, of exRunner exState]
  from a t show ?thesis
    by (simp add: exRunner_def exState_def exDrop_def exFaulty_def exNil_def)
qed

end
